theory Spec2Isabelle
  imports Main
begin

section \<open>Residue views over a shared atom store (prody/atomic/residue.py)\<close>

text \<open>
  A \<open>Residue\<close> is a view: a list of atom indices into the columns of an atom group
  (\<open>_ag\<close>), a hierarchical view (\<open>_hv\<close>) used for navigation, an optional active
  coordinate set index (\<open>_acsi\<close>) and an optional selection string (\<open>_selstr\<close>).
  Python objects are shared by reference; here the atom group and the hierarchical view
  are passed explicitly to every method, and a setter returns the updated atom group.
  Every Python exception that a method can raise is a value \<open>Inl e\<close> of the result.
\<close>

subsection \<open>Python values and text\<close>

datatype py_error = IndexError | TypeError | AttributeError

text \<open>The arguments that \<open>getAtom\<close> may receive: any Python value.\<close>

datatype pyval = PyNone | PyBool bool | PyInt int | PyStr string | PyTuple "pyval list"

fun is_str :: "pyval \<Rightarrow> bool" where
  "is_str (PyStr s) = True"
| "is_str v = False"

text \<open>Decimal text of an integer, as \<open>'{0}'.format(n)\<close> prints it.\<close>

fun str_nat :: "nat \<Rightarrow> string" where
  "str_nat n =
     (if n < 10 then [char_of (48 + n)]
      else str_nat (n div 10) @ [char_of (48 + n mod 10)])"

declare str_nat.simps [simp del]

definition str_int :: "int \<Rightarrow> string" where
  "str_int i = (if i < 0 then CHR ''-'' # str_nat (nat (- i)) else str_nat (nat i))"

text \<open>\<open>'{0}'.format(x)\<close> for a value that may be \<open>None\<close>.\<close>

definition fmt_opt :: "('a \<Rightarrow> string) \<Rightarrow> 'a option \<Rightarrow> string" where
  "fmt_opt f x = (case x of None \<Rightarrow> ''None'' | Some v \<Rightarrow> f v)"

text \<open>\<open>x or ''\<close> for an optional string: \<open>None\<close> and the empty string are both falsy.\<close>

definition or_empty :: "string option \<Rightarrow> string" where
  "or_empty x = (case x of None \<Rightarrow> [] | Some s \<Rightarrow> s)"

subsection \<open>The atom group, the residue and the hierarchical view\<close>

text \<open>
  The columns of the atom group are arrays indexed by atom index; a column that was never
  set is \<open>None\<close>. Atom indices are row numbers, residue indices are integers (the code
  subtracts one and tests the sign).
\<close>

record atomgroup =
  ag_title :: string
  ag_n_csets :: nat
  ag_acsi :: "nat option"
  ag_names :: "string list option"
  ag_resnums :: "int list option"
  ag_resnames :: "string list option"
  ag_icodes :: "string list option"
  ag_chids :: "string list option"
  ag_resindices :: "int list option"

record residue =
  indices :: "nat list"
  acsi :: "nat option"
  selstr :: "string option"

text \<open>\<open>Atom(ag, index, acsi)\<close>: a view of one atom.\<close>

record atom =
  atom_index :: nat
  atom_acsi :: "nat option"

text \<open>
  The hierarchical view holds the residues by residue index and the chains by chain
  identifier. The chain type is a parameter: only its selection string is used.
\<close>

record 'c hierview =
  hv_residues :: "residue list"
  hv_chains :: "string \<Rightarrow> 'c option"

subsection \<open>Reading a column\<close>

text \<open>\<open>data[i]\<close> on an array: an index past the end raises.\<close>

definition subscript :: "'a list \<Rightarrow> nat \<Rightarrow> py_error + 'a" where
  "subscript xs i = (if i < length xs then Inr (xs ! i) else Inl IndexError)"

text \<open>\<open>self._indices[0]\<close>.\<close>

definition first_index :: "residue \<Rightarrow> py_error + nat" where
  "first_index r = (case indices r of [] \<Rightarrow> Inl IndexError | i # _ \<Rightarrow> Inr i)"

text \<open>
  \<open>column[self._indices[0]]\<close> with no test of the column: Python evaluates the column,
  then the index, then subscripts, so an empty residue raises \<open>IndexError\<close> before a
  missing column raises \<open>TypeError\<close>.
\<close>

definition first_of :: "'a list option \<Rightarrow> residue \<Rightarrow> py_error + 'a" where
  "first_of col r =
     (case first_index r of
        Inl e \<Rightarrow> Inl e
      | Inr i \<Rightarrow> (case col of None \<Rightarrow> Inl TypeError | Some xs \<Rightarrow> subscript xs i))"

text \<open>
  \<open>data = column; if data is not None: return data[self._indices[0]]\<close>: a missing
  column gives \<open>None\<close> and the indices are not read.
\<close>

definition first_of_opt :: "'a list option \<Rightarrow> residue \<Rightarrow> py_error + 'a option" where
  "first_of_opt col r =
     (case col of
        None \<Rightarrow> Inr None
      | Some xs \<Rightarrow>
          (case first_index r of
             Inl e \<Rightarrow> Inl e
           | Inr i \<Rightarrow> (case subscript xs i of Inl e \<Rightarrow> Inl e | Inr v \<Rightarrow> Inr (Some v))))"

definition getResnum :: "atomgroup \<Rightarrow> residue \<Rightarrow> py_error + int" where
  "getResnum ag r = first_of (ag_resnums ag) r"

definition getResname :: "atomgroup \<Rightarrow> residue \<Rightarrow> py_error + string option" where
  "getResname ag r = first_of_opt (ag_resnames ag) r"

definition getIcode :: "atomgroup \<Rightarrow> residue \<Rightarrow> py_error + string option" where
  "getIcode ag r = first_of_opt (ag_icodes ag) r"

definition getResindex :: "atomgroup \<Rightarrow> residue \<Rightarrow> py_error + int" where
  "getResindex ag r = first_of (ag_resindices ag) r"

definition getChid :: "atomgroup \<Rightarrow> residue \<Rightarrow> py_error + string option" where
  "getChid ag r = first_of_opt (ag_chids ag) r"

subsection \<open>What the residue inherits from the atom subset\<close>

text \<open>
  Modelled from the spec: \<open>getACSIndex\<close> of the base view (prody/atomic/pointer.py is not
  among the sources): the view's own active coordinate set index, the atom group's when
  the view has none.
\<close>

definition getACSIndex :: "atomgroup \<Rightarrow> residue \<Rightarrow> nat option" where
  "getACSIndex ag r = (case acsi r of None \<Rightarrow> ag_acsi ag | Some a \<Rightarrow> Some a)"

text \<open>
  Modelled from the spec: \<open>getNames\<close> of the base view (prody/atomic/subset.py is not
  among the sources): the atom-name column read at the held indices, in their order;
  \<open>None\<close> when the column is missing.
\<close>

definition getNames :: "atomgroup \<Rightarrow> residue \<Rightarrow> py_error + string list option" where
  "getNames ag r =
     (case ag_names ag of
        None \<Rightarrow> Inr None
      | Some xs \<Rightarrow>
          (if list_all (\<lambda>i. i < length xs) (indices r)
           then Inr (Some (map (\<lambda>i. xs ! i) (indices r)))
           else Inl IndexError))"

text \<open>\<open>len(self)\<close>: the number of held atoms.\<close>

definition len :: "residue \<Rightarrow> nat" where
  "len r = length (indices r)"

subsection \<open>Atom lookup\<close>

text \<open>\<open>(names == name).nonzero()[0]\<close>: the positions whose entry equals the name.\<close>

definition nonzero_eq :: "string list \<Rightarrow> string \<Rightarrow> nat list" where
  "nonzero_eq ns name = filter (\<lambda>k. ns ! k = name) [0..<length ns]"

text \<open>
  \<open>getAtom\<close> ends without a \<open>return\<close> when the name is not a string or nothing matches:
  the result is \<open>None\<close>. With the name column missing, \<open>getNames() == name\<close> is the
  boolean \<open>False\<close>, which has no \<open>nonzero\<close>.
\<close>

fun getAtom :: "atomgroup \<Rightarrow> residue \<Rightarrow> pyval \<Rightarrow> py_error + atom option" where
  "getAtom ag r (PyStr name) =
     (let a = getACSIndex ag r in
      case getNames ag r of
        Inl e \<Rightarrow> Inl e
      | Inr None \<Rightarrow> Inl AttributeError
      | Inr (Some ns) \<Rightarrow>
          (case nonzero_eq ns name of
             [] \<Rightarrow> Inr None
           | k # _ \<Rightarrow>
               (case subscript (indices r) k of
                  Inl e \<Rightarrow> Inl e
                | Inr i \<Rightarrow> Inr (Some \<lparr>atom_index = i, atom_acsi = a\<rparr>))))"
| "getAtom ag r v = Inr None"

text \<open>\<open>__getitem__ = getAtom\<close>: the bracket operator is the same function object.\<close>

definition getitem :: "atomgroup \<Rightarrow> residue \<Rightarrow> pyval \<Rightarrow> py_error + atom option" where
  "getitem = getAtom"

subsection \<open>Broadcast write of the residue number\<close>

text \<open>
  Modelled from the spec: \<open>setResnums\<close> of the base view (prody/atomic/subset.py is not
  among the sources): writes the value into the residue-number column at every held
  index. The store rejects the write when the column was never set or an index is past
  its end; then nothing is written.
\<close>

definition setResnums :: "atomgroup \<Rightarrow> residue \<Rightarrow> int \<Rightarrow> py_error + atomgroup" where
  "setResnums ag r v =
     (case ag_resnums ag of
        None \<Rightarrow> Inl AttributeError
      | Some xs \<Rightarrow>
          (if list_all (\<lambda>i. i < length xs) (indices r)
           then Inr (ag\<lparr>ag_resnums := Some (fold (\<lambda>i ys. ys[i := v]) (indices r) xs)\<rparr>)
           else Inl IndexError))"

definition setResnum :: "atomgroup \<Rightarrow> residue \<Rightarrow> int \<Rightarrow> py_error + atomgroup" where
  "setResnum ag r number = setResnums ag r number"

subsection \<open>Navigation\<close>

text \<open>\<open>getChain\<close>: the chain of the hierarchical view with the residue's chain identifier.\<close>

definition getChain :: "atomgroup \<Rightarrow> 'c hierview \<Rightarrow> residue \<Rightarrow> py_error + 'c option" where
  "getChain ag hv r =
     (case getChid ag r of
        Inl e \<Rightarrow> Inl e
      | Inr None \<Rightarrow> Inr None
      | Inr (Some chid) \<Rightarrow> Inr (hv_chains hv chid))"

text \<open>
  Modelled from the spec: \<open>_getResidue\<close> of the hierarchical view
  (prody/atomic/hierview.py is not among the sources): the residue at a residue index,
  nothing when the index is out of range.
\<close>

definition hv_getResidue :: "'c hierview \<Rightarrow> int \<Rightarrow> residue option" where
  "hv_getResidue hv i =
     (if 0 \<le> i \<and> i < int (length (hv_residues hv))
      then Some (hv_residues hv ! nat i) else None)"

definition getPrev :: "atomgroup \<Rightarrow> 'c hierview \<Rightarrow> residue \<Rightarrow> py_error + residue option" where
  "getPrev ag hv r =
     (case getResindex ag r of
        Inl e \<Rightarrow> Inl e
      | Inr i \<Rightarrow>
          (let nextIndex = i - 1 in
           if nextIndex < 0 then Inr None else Inr (hv_getResidue hv nextIndex)))"

definition getNext :: "atomgroup \<Rightarrow> 'c hierview \<Rightarrow> residue \<Rightarrow> py_error + residue option" where
  "getNext ag hv r =
     (case getResindex ag r of
        Inl e \<Rightarrow> Inl e
      | Inr i \<Rightarrow> Inr (hv_getResidue hv (i + 1)))"

subsection \<open>Selection string\<close>

text \<open>\<open>if self._selstr:\<close> holds for a string that is neither \<open>None\<close> nor empty.\<close>

definition truthy :: "string option \<Rightarrow> bool" where
  "truthy x = (case x of None \<Rightarrow> False | Some s \<Rightarrow> s \<noteq> [])"

text \<open>
  \<open>getSelstr\<close>, with the chain's own \<open>getSelstr\<close> as the parameter \<open>csel\<close>. The insertion
  code and the chain are read first, the residue number when the text is formatted. The
  format of the branch with an inherited selection string names the fields \<open>{0}{1}\<close> and
  \<open>{1}\<close> again, so its third argument is never printed.
\<close>

definition getSelstr ::
  "('c \<Rightarrow> string) \<Rightarrow> atomgroup \<Rightarrow> 'c hierview \<Rightarrow> residue \<Rightarrow> py_error + string" where
  "getSelstr csel ag hv r =
     (case getIcode ag r of
        Inl e \<Rightarrow> Inl e
      | Inr ic \<Rightarrow>
          (let icode = or_empty ic in
           case getChain ag hv r of
             Inl e \<Rightarrow> Inl e
           | Inr None \<Rightarrow>
               (if truthy (selstr r)
                then (case getResnum ag r of
                        Inl e \<Rightarrow> Inl e
                      | Inr num \<Rightarrow>
                          Inr (''resnum '' @ str_int num @ icode @ '' and ('' @ icode @ '')''))
                else (case getResnum ag r of
                        Inl e \<Rightarrow> Inl e
                      | Inr num \<Rightarrow> Inr (''resnum '' @ str_int num @ icode)))
           | Inr (Some chain) \<Rightarrow>
               (case getResnum ag r of
                  Inl e \<Rightarrow> Inl e
                | Inr num \<Rightarrow>
                    Inr (''resnum '' @ str_int num @ icode @ '' and ('' @ csel chain @ '')''))))"

subsection \<open>Textual representation\<close>

text \<open>
  \<open>__repr__\<close>: the chain clause is built first (the second \<open>getChid()\<close> of the source
  reads the same entry again), then the format arguments are read from left to right.
\<close>

definition repr :: "atomgroup \<Rightarrow> residue \<Rightarrow> py_error + string" where
  "repr ag r =
     (let n_csets = ag_n_csets ag in
      case getChid ag r of
        Inl e \<Rightarrow> Inl e
      | Inr chid \<Rightarrow>
          (let chain = (case chid of None \<Rightarrow> [] | Some c \<Rightarrow> '' from Chain '' @ c) in
           case getResname ag r of
             Inl e \<Rightarrow> Inl e
           | Inr name \<Rightarrow>
               (case getResnum ag r of
                  Inl e \<Rightarrow> Inl e
                | Inr num \<Rightarrow>
                    (case getIcode ag r of
                       Inl e \<Rightarrow> Inl e
                     | Inr ic \<Rightarrow>
                         (let head = ''<Residue: '' @ fmt_opt id name @ '' '' @ str_int num
                                @ or_empty ic @ chain @ '' from '' @ ag_title ag
                                @ '' ('' @ str_nat (len r) @ '' atoms'' in
                          if n_csets = 1 then Inr (head @ '')>'')
                          else if n_csets > 1
                          then Inr (head @ ''; active #'' @ fmt_opt str_nat (getACSIndex ag r)
                                    @ '' of '' @ str_nat n_csets @ '' coordsets)>'')
                          else Inr (head @ ''; no coordinates)>''))))))"

subsection \<open>Well-formed views\<close>

text \<open>
  The hierarchical view files every residue under its own residue index: the residue at
  position \<open>k\<close> reads residue index \<open>k\<close> from the atom group.
\<close>

definition hv_consistent :: "atomgroup \<Rightarrow> 'c hierview \<Rightarrow> bool" where
  "hv_consistent ag hv =
     (map (getResindex ag) (hv_residues hv) =
      map (\<lambda>k. Inr (int k)) [0..<length (hv_residues hv)])"

subsection \<open>Small atom groups used in the examples\<close>

text \<open>
  \<open>ag_prot\<close>: one alanine, number 5, five atoms, no chain column, one coordinate set.
  \<open>ag_chains\<close>: six atoms in four residues, with residue 42 in chain A and residue 7B
  in chain B, two coordinate sets.
\<close>

definition ag_prot :: atomgroup where
  "ag_prot = \<lparr>ag_title = ''prot'', ag_n_csets = 1, ag_acsi = Some 0,
     ag_names = Some [''N'', ''CA'', ''C'', ''O'', ''CB''],
     ag_resnums = Some [5, 5, 5, 5, 5],
     ag_resnames = Some [''ALA'', ''ALA'', ''ALA'', ''ALA'', ''ALA''],
     ag_icodes = Some [[], [], [], [], []],
     ag_chids = None,
     ag_resindices = Some [0, 0, 0, 0, 0]\<rparr>"

definition res_ala :: residue where
  "res_ala = \<lparr>indices = [0, 1, 2, 3, 4], acsi = None, selstr = None\<rparr>"

definition ag_chains :: atomgroup where
  "ag_chains = \<lparr>ag_title = ''two'', ag_n_csets = 2, ag_acsi = Some 1,
     ag_names = Some [''N'', ''CA'', ''CA'', ''N'', ''CA'', ''N''],
     ag_resnums = Some [41, 42, 42, 7, 7, 8],
     ag_resnames = Some [''GLY'', ''SER'', ''SER'', ''HOH'', ''HOH'', ''HOH''],
     ag_icodes = Some [[], [], [], ''B'', ''B'', []],
     ag_chids = Some [''A'', ''A'', ''A'', ''B'', ''B'', ''B''],
     ag_resindices = Some [0, 1, 1, 2, 2, 3]\<rparr>"

definition res0 :: residue where
  "res0 = \<lparr>indices = [0], acsi = None, selstr = None\<rparr>"

definition res1 :: residue where
  "res1 = \<lparr>indices = [1, 2], acsi = None, selstr = None\<rparr>"

definition res2 :: residue where
  "res2 = \<lparr>indices = [3, 4], acsi = None, selstr = None\<rparr>"

definition res3 :: residue where
  "res3 = \<lparr>indices = [5], acsi = None, selstr = None\<rparr>"

text \<open>The hierarchical view of \<open>ag_chains\<close>; a chain is given by its selection string.\<close>

definition hv_two :: "string hierview" where
  "hv_two = \<lparr>hv_residues = [res0, res1, res2, res3],
     hv_chains = (\<lambda>c. if c = ''A'' then Some ''chain A''
                      else if c = ''B'' then Some ''chain B'' else None)\<rparr>"

text \<open>The same atoms without a chain column, and residue 7B with an inherited selection string.\<close>

definition ag_nochain :: atomgroup where
  "ag_nochain = ag_chains\<lparr>ag_chids := None\<rparr>"

definition res_7B_sel :: residue where
  "res_7B_sel = \<lparr>indices = [3, 4], acsi = None, selstr = Some ''protein''\<rparr>"


text \<open>The residue number of one atom, as a view of that atom alone reads it.\<close>

definition resnum_at :: "atomgroup \<Rightarrow> nat \<Rightarrow> py_error + int" where
  "resnum_at ag i = (case ag_resnums ag of None \<Rightarrow> Inl TypeError | Some xs \<Rightarrow> subscript xs i)"

section \<open>Properties\<close>

subsection \<open>Atom lookup by a key\<close>

text \<open>
  C5: indexing a residue with the bracket operator gives exactly what \<open>getAtom\<close> gives,
  for every atom group, residue and key (also for a key that makes \<open>getAtom\<close> raise).
\<close>

theorem getitem_is_getAtom: "getitem ag r k = getAtom ag r k"
  by (simp add: getitem_def)

text \<open>
  C10: for a key that is not a string, \<open>getAtom\<close> and the bracket operator return
  \<open>None\<close> and raise nothing. The atom group is arbitrary, so the result does not depend
  on the atom-name column: it is \<open>None\<close> also when that column is missing or shorter
  than the held indices, where a string key raises.
\<close>

theorem getAtom_non_string:
  assumes "\<not> is_str v"
  shows "getAtom ag r v = Inr None \<and> getitem ag r v = Inr None"
  using assms by (cases v) (simp_all add: getitem_def)

theorem getAtom_non_string_witness:
  "\<not> is_str (PyInt 3) \<and> getAtom (ag_chains\<lparr>ag_names := None\<rparr>) res1 (PyInt 3) = Inr None
   \<and> getitem (ag_chains\<lparr>ag_names := None\<rparr>) res1 (PyInt 3) = Inr None"
  using getAtom_non_string [of "PyInt 3" "ag_chains\<lparr>ag_names := None\<rparr>" res1] by simp

subsection \<open>Previous and next residue\<close>



text \<open>
  C2: for a residue whose residue index is the last one the hierarchical view knows,
  \<open>getNext\<close> returns \<open>None\<close> and raises nothing. \<open>getNext\<close> itself tests no bound: the
  lookup of the hierarchical view answers \<open>None\<close> for the index past the end.
\<close>

theorem getNext_last:
  assumes "getResindex ag r = Inr i" and "i = int (length (hv_residues hv)) - 1"
  shows "getNext ag hv r = Inr None"
  using assms by (simp add: getNext_def hv_getResidue_def)

theorem getNext_last_witness:
  "getResindex ag_chains res3 = Inr 3 \<and> (3::int) = int (length (hv_residues hv_two)) - 1
   \<and> getNext ag_chains hv_two res3 = Inr None"
proof -
  have a: "getResindex ag_chains res3 = Inr 3" by code_simp
  have b: "(3::int) = int (length (hv_residues hv_two)) - 1" by (simp add: hv_two_def)
  show ?thesis using getNext_last [OF a b] a b by simp
qed

subsection \<open>Selection string\<close>

text \<open>
  C1: a residue without a chain that carries the inherited selection string
  \<open>protein\<close>, with residue number 7 and insertion code B, should print
  \<open>resnum 7B and (protein)\<close>. The format string of that branch repeats the field of the
  insertion code, so the code prints \<open>resnum 7B and (B)\<close>.
\<close>

theorem getSelstr_inherited_prints_icode:
  "getSelstr id ag_nochain hv_two res_7B_sel = Inr ''resnum 7B and (B)''
   \<and> getSelstr id ag_nochain hv_two res_7B_sel \<noteq> Inr ''resnum 7B and (protein)''"
  by code_simp



subsection \<open>Textual representation\<close>

text \<open>
  C8: when the chain identifier, the residue name, the residue number and the insertion
  code can be read, the representation is
  \<open><Residue: {name} {num}{icode} from Chain {chid} from {title} ({n} atoms\<close>, with the
  insertion code printed when there is one, without the chain clause when there is no
  chain identifier, followed by \<open>)>\<close> for one coordinate set, by
  \<open>; no coordinates)>\<close> for none, and by \<open>; active #{index} of {count} coordsets)>\<close>
  for more than one.
\<close>

theorem repr_variants:
  assumes "getChid ag r = Inr chid" and "getResname ag r = Inr name"
    and "getResnum ag r = Inr num" and "getIcode ag r = Inr ic"
  shows "repr ag r =
    Inr (''<Residue: '' @ (case name of None \<Rightarrow> ''None'' | Some s \<Rightarrow> s) @ '' '' @ str_int num
         @ (case ic of None \<Rightarrow> [] | Some s \<Rightarrow> s)
         @ (case chid of None \<Rightarrow> [] | Some c \<Rightarrow> '' from Chain '' @ c)
         @ '' from '' @ ag_title ag @ '' ('' @ str_nat (length (indices r)) @ '' atoms''
         @ (if ag_n_csets ag = 1 then '')>''
            else if ag_n_csets ag = 0 then ''; no coordinates)>''
            else ''; active #''
                 @ (case getACSIndex ag r of None \<Rightarrow> ''None'' | Some a \<Rightarrow> str_nat a)
                 @ '' of '' @ str_nat (ag_n_csets ag) @ '' coordsets)>''))"
  using assms by (cases name) (simp_all add: repr_def Let_def or_empty_def fmt_opt_def len_def)

theorem repr_variants_witness:
  "repr ag_prot res_ala = Inr ''<Residue: ALA 5 from prot (5 atoms)>''
   \<and> repr (ag_prot\<lparr>ag_n_csets := 0\<rparr>) res_ala
       = Inr ''<Residue: ALA 5 from prot (5 atoms; no coordinates)>''
   \<and> repr ag_chains res1
       = Inr ''<Residue: SER 42 from Chain A from two (2 atoms; active #1 of 2 coordsets)>''
   \<and> repr ag_chains res2
       = Inr ''<Residue: HOH 7B from Chain B from two (2 atoms; active #1 of 2 coordsets)>''
   \<and> repr (ag_nochain\<lparr>ag_n_csets := 1\<rparr>) res2 = Inr ''<Residue: HOH 7B from two (2 atoms)>''
   \<and> repr (ag_prot\<lparr>ag_resnames := None, ag_icodes := None\<rparr>) res_ala
       = Inr ''<Residue: None 5 from prot (5 atoms)>''"
proof -
  have a: "getChid ag_prot res_ala = Inr None" "getResname ag_prot res_ala = Inr (Some ''ALA'')"
    "getResnum ag_prot res_ala = Inr 5" "getIcode ag_prot res_ala = Inr (Some [])"
    by code_simp+
  have a0: "getChid (ag_prot\<lparr>ag_n_csets := 0\<rparr>) res_ala = Inr None"
    "getResname (ag_prot\<lparr>ag_n_csets := 0\<rparr>) res_ala = Inr (Some ''ALA'')"
    "getResnum (ag_prot\<lparr>ag_n_csets := 0\<rparr>) res_ala = Inr 5"
    "getIcode (ag_prot\<lparr>ag_n_csets := 0\<rparr>) res_ala = Inr (Some [])"
    by code_simp+
  have b: "getChid ag_chains res1 = Inr (Some ''A'')"
    "getResname ag_chains res1 = Inr (Some ''SER'')"
    "getResnum ag_chains res1 = Inr 42" "getIcode ag_chains res1 = Inr (Some [])"
    by code_simp+
  have c: "getChid ag_chains res2 = Inr (Some ''B'')"
    "getResname ag_chains res2 = Inr (Some ''HOH'')"
    "getResnum ag_chains res2 = Inr 7" "getIcode ag_chains res2 = Inr (Some ''B'')"
    by code_simp+
  have d: "getChid (ag_nochain\<lparr>ag_n_csets := 1\<rparr>) res2 = Inr None"
    "getResname (ag_nochain\<lparr>ag_n_csets := 1\<rparr>) res2 = Inr (Some ''HOH'')"
    "getResnum (ag_nochain\<lparr>ag_n_csets := 1\<rparr>) res2 = Inr 7"
    "getIcode (ag_nochain\<lparr>ag_n_csets := 1\<rparr>) res2 = Inr (Some ''B'')"
    by code_simp+
  have e: "getChid (ag_prot\<lparr>ag_resnames := None, ag_icodes := None\<rparr>) res_ala = Inr None"
    "getResname (ag_prot\<lparr>ag_resnames := None, ag_icodes := None\<rparr>) res_ala = Inr None"
    "getResnum (ag_prot\<lparr>ag_resnames := None, ag_icodes := None\<rparr>) res_ala = Inr 5"
    "getIcode (ag_prot\<lparr>ag_resnames := None, ag_icodes := None\<rparr>) res_ala = Inr None"
    by code_simp+
  have s: "str_int 5 = ''5''" "str_int 42 = ''42''" "str_int 7 = ''7''"
    "str_nat 5 = ''5''" "str_nat 2 = ''2''" "str_nat 1 = ''1''"
    "str_nat (length (indices res_ala)) = ''5''" "str_nat (length (indices res1)) = ''2''"
    "str_nat (length (indices res2)) = ''2''"
    "ag_title ag_prot = ''prot''" "ag_title ag_chains = ''two''" "ag_title ag_nochain = ''two''"
    "ag_n_csets ag_prot = 1" "ag_n_csets ag_chains = 2"
    "getACSIndex ag_chains res1 = Some 1" "getACSIndex ag_chains res2 = Some 1"
    by code_simp+
  show ?thesis
    using repr_variants [OF a] repr_variants [OF a0] repr_variants [OF b] repr_variants [OF c]
      repr_variants [OF d] repr_variants [OF e] s
    by simp
qed

subsection \<open>Broadcast write\<close>

text \<open>Writing one value at a list of positions: the length stays, every position named holds the value.\<close>

lemma fold_update_length:
  "length (fold (\<lambda>i ys. ys[i := v]) idx xs) = length xs"
  by (induction idx arbitrary: xs) simp_all

lemma fold_update_hit:
  "i < length xs \<Longrightarrow> i \<in> set idx \<or> xs ! i = v \<Longrightarrow> fold (\<lambda>i ys. ys[i := v]) idx xs ! i = v"
proof (induction idx arbitrary: xs)
  case Nil
  then show ?case by simp
next
  case (Cons a idx)
  show ?case
  proof (cases "a = i")
    case True
    with Cons.prems have "xs[a := v] ! i = v" by simp
    with Cons.IH [of "xs[a := v]"] Cons.prems show ?thesis by simp
  next
    case False
    with Cons.prems have "i \<in> set idx \<or> xs[a := v] ! i = v" by auto
    with Cons.IH [of "xs[a := v]"] Cons.prems show ?thesis by simp
  qed
qed

text \<open>
  C3: for a residue that holds at least one atom, over a store whose residue-number
  column exists and covers the held indices, \<open>setResnum v\<close> succeeds, \<open>getResnum\<close>
  then returns \<open>v\<close>, and every held atom index reads \<open>v\<close> from the residue-number
  column.
\<close>

theorem setResnum_broadcast:
  assumes "ag_resnums ag = Some xs" and "indices r \<noteq> []"
    and "list_all (\<lambda>i. i < length xs) (indices r)"
  shows "\<exists>ag'. setResnum ag r v = Inr ag' \<and> getResnum ag' r = Inr v
           \<and> (\<forall>i \<in> set (indices r). resnum_at ag' i = Inr v)"
proof -
  let ?ys = "fold (\<lambda>i ys. ys[i := v]) (indices r) xs"
  let ?ag = "ag\<lparr>ag_resnums := Some ?ys\<rparr>"
  have set: "setResnum ag r v = Inr ?ag"
    using assms by (simp add: setResnum_def setResnums_def)
  have bound: "\<And>i. i \<in> set (indices r) \<Longrightarrow> i < length xs"
    using assms(3) by (simp add: list_all_iff)
  have each: "\<And>i. i \<in> set (indices r) \<Longrightarrow> resnum_at ?ag i = Inr v"
    using bound by (simp add: resnum_at_def subscript_def fold_update_length fold_update_hit)
  obtain a rest where ar: "indices r = a # rest"
    using assms(2) by (cases "indices r") auto
  then have "a \<in> set (indices r)" by simp
  with each have "resnum_at ?ag a = Inr v" by blast
  with ar have "getResnum ?ag r = Inr v"
    by (simp add: getResnum_def first_of_def first_index_def resnum_at_def)
  with set each show ?thesis by blast
qed

theorem setResnum_broadcast_witness:
  "ag_resnums ag_chains = Some [41, 42, 42, 7, 7, 8] \<and> indices res1 \<noteq> []
   \<and> list_all (\<lambda>i. i < length [41, 42, 42, 7, 7, 8 :: int]) (indices res1)
   \<and> setResnum ag_chains res1 9 = Inr (ag_chains\<lparr>ag_resnums := Some [41, 9, 9, 7, 7, 8]\<rparr>)
   \<and> getResnum (ag_chains\<lparr>ag_resnums := Some [41, 9, 9, 7, 7, 8]\<rparr>) res1 = Inr 9
   \<and> resnum_at (ag_chains\<lparr>ag_resnums := Some [41, 9, 9, 7, 7, 8]\<rparr>) 1 = Inr 9
   \<and> resnum_at (ag_chains\<lparr>ag_resnums := Some [41, 9, 9, 7, 7, 8]\<rparr>) 2 = Inr 9"
proof -
  have a: "ag_resnums ag_chains = Some [41, 42, 42, 7, 7, 8]" by (simp add: ag_chains_def)
  have b: "indices res1 \<noteq> []" by (simp add: res1_def)
  have c: "list_all (\<lambda>i. i < length [41, 42, 42, 7, 7, 8 :: int]) (indices res1)"
    by (simp add: res1_def)
  have s: "setResnum ag_chains res1 9 = Inr (ag_chains\<lparr>ag_resnums := Some [41, 9, 9, 7, 7, 8]\<rparr>)"
    by code_simp
  have i: "indices res1 = [1, 2]" by (simp add: res1_def)
  show ?thesis
    using setResnum_broadcast [OF a b c, of 9] a b c s i by auto
qed

subsection \<open>Which atom a lookup returns\<close>

text \<open>
  The first position that passes a test on \<open>[0..<n]\<close> is the least one; with the held
  indices in ascending order, the index at that position is the least matching index.
\<close>

lemma first_position:
  assumes "filter P [0..<n] = k # ks"
  shows "k < n \<and> P k \<and> (\<forall>j<k. \<not> P j)"
proof -
  have "k \<in> set (filter P [0..<n])" using assms by simp
  then have kn: "k < n" and pk: "P k" by simp_all
  have srt: "sorted (k # ks)"
    using sorted_wrt_filter [of "(\<le>)" "[0..<n]" P] assms by simp
  have "\<not> P j" if "j < k" for j
  proof
    assume "P j"
    with that kn have "j \<in> set (filter P [0..<n])" by simp
    with assms that have "j \<in> set ks" by auto
    with srt have "k \<le> j" by simp
    with that show False by simp
  qed
  with kn pk show ?thesis by blast
qed

lemma nonzero_eq_empty:
  "nonzero_eq (map f idx) name = [] \<longleftrightarrow> filter (\<lambda>i. f i = name) idx = []"
proof -
  have "(\<forall>k<length idx. f (idx ! k) \<noteq> name) \<longleftrightarrow> (\<forall>i\<in>set idx. f i \<noteq> name)"
    by (simp add: all_set_conv_all_nth)
  then show ?thesis
    by (auto simp: nonzero_eq_def filter_empty_conv)
qed

lemma nonzero_eq_first:
  assumes "nonzero_eq (map f idx) name = k # ks" and "sorted idx"
  shows "k < length idx \<and> Min (set (filter (\<lambda>i. f i = name) idx)) = idx ! k"
proof -
  let ?P = "\<lambda>k. map f idx ! k = name"
  from assms(1) have "filter ?P [0..<length idx] = k # ks"
    by (simp add: nonzero_eq_def)
  from first_position [OF this]
  have kn: "k < length idx" and pk: "?P k" and least: "\<forall>j<k. \<not> ?P j" by blast+
  let ?M = "set (filter (\<lambda>i. f i = name) idx)"
  have mem: "idx ! k \<in> ?M" using kn pk by simp
  have low: "idx ! k \<le> m" if "m \<in> ?M" for m
  proof -
    from that obtain j where j: "j < length idx" "idx ! j = m" "f m = name"
      by (auto simp: in_set_conv_nth)
    then have pj: "?P j" by simp
    have "k \<le> j"
    proof (rule ccontr)
      assume "\<not> k \<le> j"
      then have "j < k" by simp
      with least pj show False by blast
    qed
    with assms(2) j show ?thesis by (auto simp: sorted_iff_nth_mono)
  qed
  have "Min ?M = idx ! k"
    by (rule Min_eqI) (use mem low in auto)
  with kn show ?thesis by blast
qed

text \<open>
  Whatever the order of the held indices, a string lookup returns the first held atom
  whose name matches.
\<close>

lemma getAtom_first_held:
  assumes "ag_names ag = Some xs" and "list_all (\<lambda>i. i < length xs) (indices r)"
  shows "getAtom ag r (PyStr name) =
     Inr (map_option (\<lambda>i. \<lparr>atom_index = i, atom_acsi = getACSIndex ag r\<rparr>)
            (find (\<lambda>i. xs ! i = name) (indices r)))"
proof -
  let ?idx = "indices r"
  let ?ns = "map (\<lambda>i. xs ! i) ?idx"
  have names: "getNames ag r = Inr (Some ?ns)"
    using assms by (simp add: getNames_def)
  show ?thesis
  proof (cases "nonzero_eq ?ns name")
    case Nil
    then have "filter (\<lambda>i. xs ! i = name) ?idx = []"
      by (simp add: nonzero_eq_empty)
    then have "find (\<lambda>i. xs ! i = name) ?idx = None"
      by (simp add: find_None_iff filter_empty_conv)
    with Nil names show ?thesis by simp
  next
    case (Cons k ks)
    then have "filter (\<lambda>k. ?ns ! k = name) [0..<length ?idx] = k # ks"
      by (simp add: nonzero_eq_def)
    from first_position [OF this]
    have kn: "k < length ?idx" and pk: "?ns ! k = name"
      and least: "\<forall>j<k. ?ns ! j \<noteq> name" by blast+
    have "find (\<lambda>i. xs ! i = name) ?idx = Some (?idx ! k)"
      unfolding find_Some_iff using kn pk least by (intro exI [of _ k]) auto
    with Cons names kn show ?thesis by (simp add: subscript_def)
  qed
qed

text \<open>
  When the held indices are ascending, the first held match is the smallest held atom
  index whose name equals the string.
\<close>

lemma getAtom_lowest_ascending:
  assumes "ag_names ag = Some xs" and "list_all (\<lambda>i. i < length xs) (indices r)"
    and "sorted (indices r)"
  shows "getAtom ag r (PyStr name) =
     (case filter (\<lambda>i. xs ! i = name) (indices r) of
        [] \<Rightarrow> Inr None
      | m # ms \<Rightarrow> Inr (Some \<lparr>atom_index = Min (set (m # ms)), atom_acsi = getACSIndex ag r\<rparr>))"
proof -
  let ?ns = "map (\<lambda>i. xs ! i) (indices r)"
  have names: "getNames ag r = Inr (Some ?ns)"
    using assms(1,2) by (simp add: getNames_def)
  show ?thesis
  proof (cases "nonzero_eq ?ns name")
    case Nil
    then have "filter (\<lambda>i. xs ! i = name) (indices r) = []"
      by (simp add: nonzero_eq_empty)
    with Nil names show ?thesis by simp
  next
    case (Cons k ks)
    from nonzero_eq_first [OF Cons assms(3)]
    have kn: "k < length (indices r)"
      and mn: "Min (set (filter (\<lambda>i. xs ! i = name) (indices r))) = indices r ! k" by blast+
    from Cons have "filter (\<lambda>i. xs ! i = name) (indices r) \<noteq> []"
      using nonzero_eq_empty [of "\<lambda>i. xs ! i" "indices r" name] by simp
    then obtain m ms where ms: "filter (\<lambda>i. xs ! i = name) (indices r) = m # ms"
      by (cases "filter (\<lambda>i. xs ! i = name) (indices r)") auto
    with mn have "Min (set (m # ms)) = indices r ! k" by simp
    with Cons names kn ms show ?thesis by (simp add: subscript_def)
  qed
qed


subsection \<open>Navigation symmetry\<close>

lemma hv_consistent_nth:
  assumes "hv_consistent ag hv" and "k < length (hv_residues hv)"
  shows "getResindex ag (hv_residues hv ! k) = Inr (int k)"
proof -
  from assms(1) have "map (getResindex ag) (hv_residues hv) ! k =
      map (\<lambda>k. Inr (int k)) [0..<length (hv_residues hv)] ! k"
    by (simp add: hv_consistent_def)
  with assms(2) show ?thesis by simp
qed

text \<open>
  C9: in a hierarchical view that files every residue under its own residue index, for a
  residue whose residue index lies strictly between the first and the last, the previous
  residue of the next residue and the next residue of the previous residue both exist and
  have the residue's own residue index; at residue index 0 \<open>getPrev\<close> is \<open>None\<close>, at the
  last residue index \<open>getNext\<close> is \<open>None\<close>.
\<close>

theorem navigation_symmetry:
  assumes "hv_consistent ag hv" and "getResindex ag r = Inr i"
  shows "(0 < i \<and> i < int (length (hv_residues hv)) - 1 \<longrightarrow>
           (\<exists>nx p. getNext ag hv r = Inr (Some nx) \<and> getPrev ag hv nx = Inr (Some p)
                    \<and> getResindex ag p = Inr i)
         \<and> (\<exists>pv q. getPrev ag hv r = Inr (Some pv) \<and> getNext ag hv pv = Inr (Some q)
                    \<and> getResindex ag q = Inr i))
    \<and> (i = 0 \<longrightarrow> getPrev ag hv r = Inr None)
    \<and> (i = int (length (hv_residues hv)) - 1 \<longrightarrow> getNext ag hv r = Inr None)"
proof -
  let ?rs = "hv_residues hv"
  have lower: "i = 0 \<longrightarrow> getPrev ag hv r = Inr None"
    using assms(2) by (simp add: getPrev_def)
  have upper: "i = int (length ?rs) - 1 \<longrightarrow> getNext ag hv r = Inr None"
    using assms(2) by (simp add: getNext_def hv_getResidue_def)
  have mid: "(\<exists>nx p. getNext ag hv r = Inr (Some nx) \<and> getPrev ag hv nx = Inr (Some p)
                    \<and> getResindex ag p = Inr i)
         \<and> (\<exists>pv q. getPrev ag hv r = Inr (Some pv) \<and> getNext ag hv pv = Inr (Some q)
                    \<and> getResindex ag q = Inr i)"
    if inner: "0 < i" "i < int (length ?rs) - 1"
  proof -
    from inner have hi: "nat (i + 1) < length ?rs" and here: "nat i < length ?rs"
      and lo: "nat (i - 1) < length ?rs" by linarith+
    have nx: "getNext ag hv r = Inr (Some (?rs ! nat (i + 1)))"
      using assms(2) inner by (simp add: getNext_def hv_getResidue_def)
    have nxi: "getResindex ag (?rs ! nat (i + 1)) = Inr (i + 1)"
      using hv_consistent_nth [OF assms(1) hi] inner by simp
    have nxp: "getPrev ag hv (?rs ! nat (i + 1)) = Inr (Some (?rs ! nat i))"
      using nxi inner by (simp add: getPrev_def hv_getResidue_def)
    have pv: "getPrev ag hv r = Inr (Some (?rs ! nat (i - 1)))"
      using assms(2) inner by (simp add: getPrev_def hv_getResidue_def)
    have pvi: "getResindex ag (?rs ! nat (i - 1)) = Inr (i - 1)"
      using hv_consistent_nth [OF assms(1) lo] inner by simp
    have pvn: "getNext ag hv (?rs ! nat (i - 1)) = Inr (Some (?rs ! nat i))"
      using pvi inner by (simp add: getNext_def hv_getResidue_def)
    have same: "getResindex ag (?rs ! nat i) = Inr i"
      using hv_consistent_nth [OF assms(1) here] inner by simp
    from nx nxp pv pvn same show ?thesis by blast
  qed
  from lower upper mid show ?thesis by blast
qed

theorem navigation_symmetry_witness:
  "hv_consistent ag_chains hv_two \<and> getResindex ag_chains res1 = Inr 1
   \<and> getNext ag_chains hv_two res1 = Inr (Some res2)
   \<and> getPrev ag_chains hv_two res2 = Inr (Some res1)
   \<and> getPrev ag_chains hv_two res1 = Inr (Some res0)
   \<and> getNext ag_chains hv_two res0 = Inr (Some res1)
   \<and> (\<exists>nx p. getNext ag_chains hv_two res1 = Inr (Some nx)
        \<and> getPrev ag_chains hv_two nx = Inr (Some p) \<and> getResindex ag_chains p = Inr 1)
   \<and> (\<exists>pv q. getPrev ag_chains hv_two res1 = Inr (Some pv)
        \<and> getNext ag_chains hv_two pv = Inr (Some q) \<and> getResindex ag_chains q = Inr 1)"
proof -
  have h: "hv_consistent ag_chains hv_two" by code_simp
  have a: "getResindex ag_chains res1 = Inr 1" by code_simp
  have n: "length (hv_residues hv_two) = 4" by (simp add: hv_two_def)
  have e: "getNext ag_chains hv_two res1 = Inr (Some res2)"
    "getPrev ag_chains hv_two res2 = Inr (Some res1)"
    "getPrev ag_chains hv_two res1 = Inr (Some res0)"
    "getNext ag_chains hv_two res0 = Inr (Some res1)" by code_simp+
  show ?thesis
    using navigation_symmetry [OF h a] h a n e by simp
qed

end
